theory Spec2Isabelle
  imports Main "HOL-Library.Sublist"
begin

section \<open>hyperfunc: typed function definitions exported as tools and dispatched by name\<close>

text \<open>
  The development embeds \<^verbatim>\<open>src/index.ts\<close>: the builder \<^verbatim>\<open>hyper\<close>, the schema
  translator \<^verbatim>\<open>hyperFunctionToTool\<close> and the registry \<^verbatim>\<open>hyperStore\<close> with its
  methods \<^verbatim>\<open>set\<close>, \<^verbatim>\<open>callTool\<close> and \<^verbatim>\<open>asTools\<close>.

  The source calls functions it does not define: \<^verbatim>\<open>JSON.parse\<close>, zod's \<^verbatim>\<open>z.object\<close> and
  \<^verbatim>\<open>safeParse\<close>, \<^verbatim>\<open>zodToJsonSchema\<close> and \<^verbatim>\<open>ind\<close>. They are parameters of the embedding
  (the record \<open>externals\<close>, which also holds zod's \<^verbatim>\<open>isOptional\<close>, to speak of optional
  arguments), so every theorem holds for whatever these libraries compute; a property
  that needs more of a library than its type says so in a premise. Node's \<^verbatim>\<open>assert\<close> is
  modelled directly: it throws an \<^verbatim>\<open>AssertionError\<close> on \<^verbatim>\<open>undefined\<close>.
\<close>

subsection \<open>JavaScript values, exceptions and promises\<close>

text \<open>
  \<open>'u\<close> is the type of JavaScript values (TypeScript's \<^verbatim>\<open>unknown\<close>). A thrown value is
  the \<^verbatim>\<open>AssertionError\<close> of \<^verbatim>\<open>assert\<close>, an \<^verbatim>\<open>Error\<close> with its message, or any
  other value, thrown by a library or a handler.
\<close>

datatype 'u thrown = AssertionError | Error string | Thrown 'u

text \<open>
  How a promise ends: fulfilled with a value, rejected with a thrown value, or never.
  \<^verbatim>\<open>callTool\<close> is an \<^verbatim>\<open>async\<close> method, so what it gives its caller is a settlement.
\<close>

datatype 'u settlement = Fulfilled 'u | RejectedWith "'u thrown" | NeverSettles

text \<open>
  Effects are explicit: \<open>'w\<close> is the state of everything a handler can touch. A handler
  returns \<^verbatim>\<open>Promise<unknown> | unknown\<close>: a plain value, or a promise, which is the rest
  of the handler's work, run when it is awaited.
\<close>

datatype ('u, 'w) response = Value 'u | Promise "'w \<Rightarrow> 'u settlement \<times> 'w"

definition await :: "('w \<Rightarrow> 'u settlement \<times> 'w) \<Rightarrow> 'w \<Rightarrow> 'u settlement \<times> 'w" where
  "await p w = p w"

subsection \<open>The data model\<close>

text \<open>
  \<^verbatim>\<open>HyperFunctionData<Context>\<close>, fields \<^verbatim>\<open>_description\<close>, \<^verbatim>\<open>_schema\<close>, \<^verbatim>\<open>_handler\<close> (a
  name cannot start with an underscore here). A handler either throws or returns its
  response, and leaves a new state.
\<close>

record ('s, 'c, 'u, 'w) HyperFunctionData =
  hf_description :: string
  hf_schema :: 's
  hf_handler :: "'u \<Rightarrow> 'c \<Rightarrow> 'w \<Rightarrow> ('u thrown + ('u, 'w) response) \<times> 'w"

text \<open>zod's \<^verbatim>\<open>SafeParseReturnType\<close>: \<^verbatim>\<open>{success: true, data}\<close> or \<^verbatim>\<open>{success: false, error}\<close>.\<close>

datatype 'u SafeParseReturn = SafeParseSuccess 'u | SafeParseError 'u

text \<open>
  The imported functions. A JavaScript object whose keys are tested with \<^verbatim>\<open>in\<close> and read
  by name is a map from keys to values; \<open>'s\<close> is the type of zod object schemas and
  \<open>'n\<close> the type of the schema nodes \<^verbatim>\<open>z.object\<close> combines.
\<close>

record ('s, 'n, 'u) externals =
  JSON_parse :: "string \<Rightarrow> 'u thrown + 'u"
  safeParse :: "'s \<Rightarrow> 'u \<Rightarrow> 'u SafeParseReturn"
  zodToJsonSchema :: "'s \<Rightarrow> (string \<rightharpoonup> 'u)"
  z_object :: "(string \<times> 'n) list \<Rightarrow> 's"
  isOptional :: "'n \<Rightarrow> bool"
  ind :: "string \<Rightarrow> string"

text \<open>
  \<^verbatim>\<open>OpenAI.Chat.Completions.ChatCompletionTool\<close>:
  \<^verbatim>\<open>{function: {name, description, parameters}, type}\<close>.
\<close>

record 'u FunctionDefinition =
  fd_name :: string
  fd_description :: string
  fd_parameters :: "string \<rightharpoonup> 'u"

record 'u ChatCompletionTool =
  tool_function :: "'u FunctionDefinition"
  tool_type :: string

text \<open>
  \<^verbatim>\<open>ChatCompletionMessageToolCall\<close>, of which the code reads \<^verbatim>\<open>data.function.name\<close> and
  \<^verbatim>\<open>data.function.arguments\<close>.
\<close>

record ToolCall =
  call_name :: string
  call_arguments :: string

subsection \<open>The JavaScript \<^verbatim>\<open>Map\<close>\<close>

text \<open>
  A \<^verbatim>\<open>Map\<close> keeps its entries in insertion order. \<^verbatim>\<open>Map.prototype.set\<close> overwrites the
  value of a key that is present, where it stands, and appends a new key.
  \<^verbatim>\<open>new Map(entries)\<close> sets the entries one after the other.
\<close>

fun Map_set :: "'k \<Rightarrow> 'v \<Rightarrow> ('k \<times> 'v) list \<Rightarrow> ('k \<times> 'v) list" where
  "Map_set k v [] = [(k, v)]"
| "Map_set k v ((k', v') # m) = (if k' = k then (k, v) # m else (k', v') # Map_set k v m)"

definition Map_get :: "('k \<times> 'v) list \<Rightarrow> 'k \<Rightarrow> 'v option" where
  "Map_get m k = map_of m k"

definition new_Map :: "('k \<times> 'v) list \<Rightarrow> ('k \<times> 'v) list" where
  "new_Map entries = foldl (\<lambda>m (k, v). Map_set k v m) [] entries"

subsection \<open>The schema translator\<close>

definition hyperFunctionToTool ::
  "('s, 'n, 'u) externals \<Rightarrow> string \<Rightarrow> ('s, 'c, 'u, 'w) HyperFunctionData \<Rightarrow> 'u ChatCompletionTool" where
  "hyperFunctionToTool X name data =
     (let schema = zodToJsonSchema X (hf_schema data);
          parameters =
            (if schema ''type'' \<noteq> None \<and> schema ''properties'' \<noteq> None \<and> schema ''required'' \<noteq> None
             then Map.empty(''type'' := schema ''type'',
                    ''properties'' := schema ''properties'',
                    ''required'' := schema ''required'')
             else Map.empty)
      in \<lparr>tool_function =
            \<lparr>fd_name = name, fd_description = hf_description data, fd_parameters = parameters\<rparr>,
          tool_type = ''function''\<rparr>)"

subsection \<open>The registry and the dispatcher\<close>

record ('s, 'c, 'u, 'w) HyperStore =
  hs_functions :: "(string \<times> ('s, 'c, 'u, 'w) HyperFunctionData) list"

text \<open>
  \<^verbatim>\<open>hyperStore(functions)\<close>: the argument is a \<^verbatim>\<open>Record<string, HyperFunctionData>\<close>, given
  here as the list \<^verbatim>\<open>Object.entries\<close> makes of it, in the object's key order.
\<close>

definition hyperStore ::
  "(string \<times> ('s, 'c, 'u, 'w) HyperFunctionData) list \<Rightarrow> ('s, 'c, 'u, 'w) HyperStore" where
  "hyperStore fs = \<lparr>hs_functions = new_Map fs\<rparr>"

text \<open>The method \<^verbatim>\<open>set\<close>.\<close>

definition store_set ::
  "string \<Rightarrow> ('s, 'c, 'u, 'w) HyperFunctionData \<Rightarrow> ('s, 'c, 'u, 'w) HyperStore
     \<Rightarrow> ('s, 'c, 'u, 'w) HyperStore" where
  "store_set name hf st = st\<lparr>hs_functions := Map_set name hf (hs_functions st)\<rparr>"

text \<open>The template literal of the error message, before \<^verbatim>\<open>ind\<close> is applied to it.\<close>

definition bad_arguments_text :: "string \<Rightarrow> string" where
  "bad_arguments_text name =
     [CHR 0x0A] @ ''        There was an issue with parsing the function arguments,'' @
     [CHR 0x0A] @ ''        please rewrite it by calling the '' @ name @
     '' function with the correct parameters.''"

text \<open>
  \<^verbatim>\<open>callTool(data, context)\<close>: look the name up and assert that it is there; parse the
  arguments; validate them; throw the error that names the function when they are not
  valid; call the handler; await its response when it is a promise.
\<close>

definition callTool ::
  "('s, 'n, 'u) externals \<Rightarrow> ('s, 'c, 'u, 'w) HyperStore \<Rightarrow> ToolCall \<Rightarrow> 'c \<Rightarrow> 'w
     \<Rightarrow> 'u settlement \<times> 'w" where
  "callTool X st data ctx w =
     (case Map_get (hs_functions st) (call_name data) of
        None \<Rightarrow> (RejectedWith AssertionError, w)
      | Some hyperFunction \<Rightarrow>
          (case JSON_parse X (call_arguments data) of
             Inl e \<Rightarrow> (RejectedWith e, w)
           | Inr parsed \<Rightarrow>
               (case safeParse X (hf_schema hyperFunction) parsed of
                  SafeParseError _ \<Rightarrow>
                    (RejectedWith (Error (ind X (bad_arguments_text (call_name data)))), w)
                | SafeParseSuccess args \<Rightarrow>
                    (case hf_handler hyperFunction args ctx w of
                       (Inl e, w') \<Rightarrow> (RejectedWith e, w')
                     | (Inr (Promise p), w') \<Rightarrow> await p w'
                     | (Inr (Value v), w') \<Rightarrow> (Fulfilled v, w')))))"

definition asTools ::
  "('s, 'n, 'u) externals \<Rightarrow> ('s, 'c, 'u, 'w) HyperStore \<Rightarrow> 'u ChatCompletionTool list" where
  "asTools X st = map (\<lambda>(k, v). hyperFunctionToTool X k v) (hs_functions st)"

subsection \<open>The builder\<close>

definition hyper ::
  "('s, 'n, 'u) externals \<Rightarrow> string \<Rightarrow> (string \<times> 'n) list
     \<Rightarrow> ('u \<Rightarrow> 'c \<Rightarrow> 'w \<Rightarrow> ('u thrown + ('u, 'w) response) \<times> 'w)
     \<Rightarrow> ('s, 'c, 'u, 'w) HyperFunctionData" where
  "hyper X description args handler =
     \<lparr>hf_description = description, hf_schema = z_object X args, hf_handler = handler\<rparr>"

subsection \<open>The states a registry can be in\<close>

text \<open>
  A registry is made by \<^verbatim>\<open>hyperStore\<close> and changed by \<^verbatim>\<open>set\<close> only (\<^verbatim>\<open>callTool\<close> and
  \<^verbatim>\<open>asTools\<close> read it).
\<close>

inductive reachable :: "('s, 'c, 'u, 'w) HyperStore \<Rightarrow> bool" where
  created: "reachable (hyperStore fs)"
| after_set: "reachable st \<Longrightarrow> reachable (store_set name hf st)"

text \<open>The names of a list of tool descriptors, in the list's order.\<close>

definition tool_names :: "'u ChatCompletionTool list \<Rightarrow> string list" where
  "tool_names ts = map (\<lambda>t. fd_name (tool_function t)) ts"

text \<open>
  A definition whose handler reads its context through \<open>f\<close>: what the handler is given
  is \<open>f\<close> of what the dispatcher passes.
\<close>

definition through_context ::
  "('c \<Rightarrow> 'd) \<Rightarrow> ('s, 'd, 'u, 'w) HyperFunctionData \<Rightarrow> ('s, 'c, 'u, 'w) HyperFunctionData" where
  "through_context f hf =
     \<lparr>hf_description = hf_description hf, hf_schema = hf_schema hf,
      hf_handler = (\<lambda>args ctx. hf_handler hf args (f ctx))\<rparr>"

text \<open>The registry whose handlers all read the context through \<open>f\<close>.\<close>

definition store_through_context ::
  "('c \<Rightarrow> 'd) \<Rightarrow> ('s, 'd, 'u, 'w) HyperStore \<Rightarrow> ('s, 'c, 'u, 'w) HyperStore" where
  "store_through_context f st =
     \<lparr>hs_functions = map (\<lambda>(k, hf). (k, through_context f hf)) (hs_functions st)\<rparr>"

text \<open>
  What a converter does when it leaves \<^verbatim>\<open>required\<close> out of the JSON Schema of an object
  schema none of whose arguments is required (as zod-to-json-schema does): a property
  of the library, used as a premise and never as a fact.
\<close>

definition omits_empty_required :: "('s, 'n, 'u) externals \<Rightarrow> bool" where
  "omits_empty_required X =
     (\<forall>args. list_all (\<lambda>(k, node). isOptional X node) args
        \<longrightarrow> zodToJsonSchema X (z_object X args) ''required'' = None)"

subsection \<open>A sample instance\<close>

text \<open>
  Concrete values for the parameters, to run the definitions on: a small type of
  JavaScript values, schema nodes for numbers and strings, and simple stand-ins for the
  libraries. The registry holds the README's \<^verbatim>\<open>add_two\<close>; the state counts the calls of
  the handlers.
\<close>

datatype jsval =
  Undefined | Bool bool | Num int | Str string | Arr "jsval list" | Obj "(string \<times> jsval) list"

datatype znode = ZNumber | ZString | ZOptional znode

fun node_optional :: "znode \<Rightarrow> bool" where
  "node_optional (ZOptional n) = True"
| "node_optional n = False"

fun node_accepts :: "znode \<Rightarrow> jsval option \<Rightarrow> bool" where
  "node_accepts ZNumber v = (case v of Some (Num i) \<Rightarrow> True | _ \<Rightarrow> False)"
| "node_accepts ZString v = (case v of Some (Str s) \<Rightarrow> True | _ \<Rightarrow> False)"
| "node_accepts (ZOptional n) v = (case v of None \<Rightarrow> True | Some x \<Rightarrow> node_accepts n v)"

fun node_schema :: "znode \<Rightarrow> jsval" where
  "node_schema ZNumber = Obj [(''type'', Str ''number'')]"
| "node_schema ZString = Obj [(''type'', Str ''string'')]"
| "node_schema (ZOptional n) = node_schema n"

definition sample_safeParse :: "(string \<times> znode) list \<Rightarrow> jsval \<Rightarrow> jsval SafeParseReturn" where
  "sample_safeParse shape v =
     (case v of
        Obj props \<Rightarrow>
          if list_all (\<lambda>(k, n). node_accepts n (map_of props k)) shape
          then SafeParseSuccess (Obj (filter (\<lambda>(k, x). k \<in> set (map fst shape)) props))
          else SafeParseError (Str ''ZodError'')
      | _ \<Rightarrow> SafeParseError (Str ''ZodError''))"

definition sample_zodToJsonSchema :: "(string \<times> znode) list \<Rightarrow> (string \<rightharpoonup> jsval)" where
  "sample_zodToJsonSchema shape =
     (let required = map fst (filter (\<lambda>(k, n). \<not> node_optional n) shape);
          result = [''type'' \<mapsto> Str ''object'',
                    ''properties'' \<mapsto> Obj (map (\<lambda>(k, n). (k, node_schema n)) shape),
                    ''additionalProperties'' \<mapsto> Bool False]
      in if required = [] then result else result(''required'' \<mapsto> Arr (map Str required)))"

definition sample_JSON_parse :: "string \<Rightarrow> jsval thrown + jsval" where
  \<open>sample_JSON_parse s =
     (if s = ''{"a":2,"b":3}'' then Inr (Obj [(''a'', Num 2), (''b'', Num 3)])
      else if s = ''{"a":"x","b":3}'' then Inr (Obj [(''a'', Str ''x''), (''b'', Num 3)])
      else if s = ''{}'' then Inr (Obj [])
      else Inl (Thrown (Str ''SyntaxError'')))\<close>

definition sample_ind :: "string \<Rightarrow> string" where
  "sample_ind s = dropWhile (\<lambda>c. c = CHR 0x0A \<or> c = CHR '' '') s"

definition sample :: "((string \<times> znode) list, znode, jsval) externals" where
  "sample =
     \<lparr>JSON_parse = sample_JSON_parse, safeParse = sample_safeParse,
      zodToJsonSchema = sample_zodToJsonSchema, z_object = (\<lambda>args. args),
      isOptional = node_optional, ind = sample_ind\<rparr>"

text \<open>
  \<^verbatim>\<open>handler: async ({ a, b }) => a + b\<close>: the sum, in a promise; another handler that
  returns the context it is given, one that throws and one whose promise is rejected.
\<close>

definition add_two_handler ::
  "jsval \<Rightarrow> 'c \<Rightarrow> nat \<Rightarrow> (jsval thrown + (jsval, nat) response) \<times> nat" where
  "add_two_handler args ctx calls =
     (case args of
        Obj [(ka, Num a), (kb, Num b)] \<Rightarrow>
          (Inr (Promise (\<lambda>w. (Fulfilled (Num (a + b)), w))), Suc calls)
      | _ \<Rightarrow> (Inl (Thrown Undefined), Suc calls))"

definition whoami_handler ::
  "jsval \<Rightarrow> string \<Rightarrow> nat \<Rightarrow> (jsval thrown + (jsval, nat) response) \<times> nat" where
  "whoami_handler args ctx calls = (Inr (Value (Str ctx)), Suc calls)"

definition throwing_handler ::
  "jsval \<Rightarrow> string \<Rightarrow> nat \<Rightarrow> (jsval thrown + (jsval, nat) response) \<times> nat" where
  "throwing_handler args ctx calls = (Inl (Thrown (Str ''boom'')), Suc calls)"

definition rejecting_handler ::
  "jsval \<Rightarrow> string \<Rightarrow> nat \<Rightarrow> (jsval thrown + (jsval, nat) response) \<times> nat" where
  "rejecting_handler args ctx calls =
     (Inr (Promise (\<lambda>w. (RejectedWith (Thrown (Str ''late'')), w))), Suc calls)"

definition add_two :: "((string \<times> znode) list, string, jsval, nat) HyperFunctionData" where
  "add_two = hyper sample ''Add two numbers'' [(''a'', ZNumber), (''b'', ZNumber)] add_two_handler"

definition whoami :: "((string \<times> znode) list, string, jsval, nat) HyperFunctionData" where
  "whoami = hyper sample ''Name the caller'' [(''hint'', ZOptional ZString)] whoami_handler"

definition fail_now :: "((string \<times> znode) list, string, jsval, nat) HyperFunctionData" where
  "fail_now = hyper sample ''Throw at once'' [] throwing_handler"

definition fail_later :: "((string \<times> znode) list, string, jsval, nat) HyperFunctionData" where
  "fail_later = hyper sample ''Throw after a while'' [] rejecting_handler"

definition sample_store :: "((string \<times> znode) list, string, jsval, nat) HyperStore" where
  "sample_store =
     hyperStore [(''add_two'', add_two), (''whoami'', whoami), (''fail_now'', fail_now),
       (''fail_later'', fail_later)]"

definition good_call :: ToolCall where
  \<open>good_call = \<lparr>call_name = ''add_two'', call_arguments = ''{"a":2,"b":3}''\<rparr>\<close>

definition bad_call :: ToolCall where
  \<open>bad_call = \<lparr>call_name = ''add_two'', call_arguments = ''{"a":"x","b":3}''\<rparr>\<close>

definition malformed_call :: ToolCall where
  \<open>malformed_call = \<lparr>call_name = ''add_two'', call_arguments = ''{"a":''\<rparr>\<close>

definition whoami_call :: ToolCall where
  "whoami_call = \<lparr>call_name = ''whoami'', call_arguments = ''{}''\<rparr>"

definition fail_now_call :: ToolCall where
  "fail_now_call = \<lparr>call_name = ''fail_now'', call_arguments = ''{}''\<rparr>"

definition fail_later_call :: ToolCall where
  "fail_later_call = \<lparr>call_name = ''fail_later'', call_arguments = ''{}''\<rparr>"

definition unknown_call :: ToolCall where
  "unknown_call = \<lparr>call_name = ''nonexistent'', call_arguments = ''{}''\<rparr>"

definition add_two_tool :: "jsval ChatCompletionTool" where
  "add_two_tool =
     \<lparr>tool_function =
        \<lparr>fd_name = ''add_two'', fd_description = ''Add two numbers'',
         fd_parameters =
           [''type'' \<mapsto> Str ''object'',
            ''properties'' \<mapsto> Obj [(''a'', Obj [(''type'', Str ''number'')]),
                                     (''b'', Obj [(''type'', Str ''number'')])],
            ''required'' \<mapsto> Arr [Str ''a'', Str ''b'']]\<rparr>,
      tool_type = ''function''\<rparr>"

section \<open>Properties\<close>

subsection \<open>The \<^verbatim>\<open>Map\<close>\<close>

lemma map_of_Map_set: "map_of (Map_set k v m) = (map_of m)(k \<mapsto> v)"
  by (induction m) (auto simp: fun_eq_iff)

lemma keys_Map_set:
  "map fst (Map_set k v m) = (if k \<in> set (map fst m) then map fst m else map fst m @ [k])"
  by (induction m) (force split: if_splits)+

lemma distinct_Map_set: "distinct (map fst m) \<Longrightarrow> distinct (map fst (Map_set k v m))"
  by (simp add: keys_Map_set)

lemma Map_set_twice: "Map_set k v2 (Map_set k v1 m) = Map_set k v2 m"
  by (induction m) auto

lemma Map_set_new: "k \<notin> set (map fst m) \<Longrightarrow> Map_set k v m = m @ [(k, v)]"
  by (induction m) auto

lemma foldl_Map_set_distinct:
  "distinct (map fst acc) \<Longrightarrow> distinct (map fst (foldl (\<lambda>m (k, v). Map_set k v m) acc es))"
  by (induction es arbitrary: acc) (auto simp: distinct_Map_set)

lemma foldl_Map_set_append:
  "distinct (map fst (acc @ es)) \<Longrightarrow> foldl (\<lambda>m (k, v). Map_set k v m) acc es = acc @ es"
proof (induction es arbitrary: acc)
  case Nil
  then show ?case by simp
next
  case (Cons e es)
  obtain k v where e: "e = (k, v)" by (cases e)
  from Cons.prems e have new: "k \<notin> set (map fst acc)" by auto
  from Cons.prems e have "distinct (map fst ((acc @ [(k, v)]) @ es))" by simp
  then have "foldl (\<lambda>m (k, v). Map_set k v m) (acc @ [(k, v)]) es = (acc @ [(k, v)]) @ es"
    by (rule Cons.IH)
  with new e show ?case by (simp add: Map_set_new)
qed

lemma distinct_new_Map: "distinct (map fst (new_Map es))"
  unfolding new_Map_def by (rule foldl_Map_set_distinct) simp

lemma new_Map_distinct: "distinct (map fst es) \<Longrightarrow> new_Map es = es"
  unfolding new_Map_def using foldl_Map_set_append [of "[]" es] by simp

lemma reachable_distinct: "reachable st \<Longrightarrow> distinct (map fst (hs_functions st))"
  by (induction rule: reachable.induct)
    (simp_all add: hyperStore_def store_set_def distinct_new_Map distinct_Map_set)

lemma Map_get_through_context:
  "Map_get (map (\<lambda>(k, hf). (k, through_context f hf)) m) name
     = map_option (through_context f) (Map_get m name)"
  by (induction m) (auto simp: Map_get_def)

lemma asTools_names: "tool_names (asTools X st) = map fst (hs_functions st)"
  by (simp add: tool_names_def asTools_def hyperFunctionToTool_def Let_def case_prod_unfold)

lemma filter_key_distinct:
  "distinct (map fst m) \<Longrightarrow> map_of m k = Some v \<Longrightarrow> filter (\<lambda>(k', v'). k' = k) m = [(k, v)]"
proof (induction m)
  case Nil
  then show ?case by simp
next
  case (Cons e m)
  obtain k' v' where e: "e = (k', v')" by (cases e)
  show ?case
  proof (cases "k' = k")
    case True
    with Cons.prems e have "v' = v" and "k \<notin> fst ` set m" by auto
    then have "filter (\<lambda>(k', v'). k' = k) m = []"
      by (force simp: filter_empty_conv)
    with True e \<open>v' = v\<close> show ?thesis by simp
  next
    case False
    with Cons e show ?thesis by simp
  qed
qed

lemma filter_tools_by_name:
  "filter (\<lambda>t. fd_name (tool_function t) = name) (map (\<lambda>(k, v). hyperFunctionToTool X k v) m)
     = map (\<lambda>(k, v). hyperFunctionToTool X k v) (filter (\<lambda>(k', v'). k' = name) m)"
  by (induction m) (auto simp: hyperFunctionToTool_def Let_def)

lemma all_optional_no_required:
  "list_all (\<lambda>(k, n). node_optional n) args \<Longrightarrow> filter (\<lambda>(k, n). \<not> node_optional n) args = []"
  by (induction args) auto

lemma through_context_sel:
  "hf_schema (through_context f hf) = hf_schema hf"
  "hf_description (through_context f hf) = hf_description hf"
  "hf_handler (through_context f hf) = (\<lambda>args ctx. hf_handler hf args (f ctx))"
  by (simp_all add: through_context_def)

subsection \<open>The sample instance\<close>

lemma sample_store_functions:
  "hs_functions sample_store =
     [(''add_two'', add_two), (''whoami'', whoami), (''fail_now'', fail_now),
      (''fail_later'', fail_later)]"
  by (simp add: sample_store_def hyperStore_def new_Map_def)

lemmas sample_simps =
  sample_def sample_store_functions Map_get_def add_two_def whoami_def hyper_def
  sample_JSON_parse_def sample_safeParse_def add_two_handler_def whoami_handler_def
  good_call_def bad_call_def malformed_call_def whoami_call_def unknown_call_def
  fail_now_def fail_later_def throwing_handler_def rejecting_handler_def
  fail_now_call_def fail_later_call_def sample_zodToJsonSchema_def

lemma sample_store_reachable: "reachable sample_store"
  unfolding sample_store_def by (rule reachable.created)

lemma add_two_parameters:
  "fd_parameters (tool_function (hyperFunctionToTool sample ''add_two'' add_two))
     = fd_parameters (tool_function add_two_tool)"
  by (auto simp: hyperFunctionToTool_def Let_def add_two_tool_def fun_eq_iff sample_simps)

subsection \<open>Dispatch\<close>

text \<open>
  C1. A request that names a registered function, with an arguments string that
  \<^verbatim>\<open>JSON.parse\<close> parses and that the definition's schema validates, runs the definition's
  handler once, on the validated arguments and the caller's context, from the state the
  call started in. When the handler returns a plain value, \<^verbatim>\<open>callTool\<close> is fulfilled with
  that value in the state the handler left; when it returns a promise that is fulfilled,
  \<^verbatim>\<open>callTool\<close> awaits it and is fulfilled with the promise's value, in the state the
  awaited work left.
\<close>

theorem callTool_valid:
  assumes "Map_get (hs_functions st) (call_name data) = Some hf"
    and "JSON_parse X (call_arguments data) = Inr parsed"
    and "safeParse X (hf_schema hf) parsed = SafeParseSuccess args"
  shows "(hf_handler hf args ctx w = (Inr (Value v), w')
            \<longrightarrow> callTool X st data ctx w = (Fulfilled v, w'))
       \<and> (hf_handler hf args ctx w = (Inr (Promise p), w') \<and> p w' = (Fulfilled v, w'')
            \<longrightarrow> callTool X st data ctx w = (Fulfilled v, w''))"
  using assms by (simp add: callTool_def await_def)

theorem callTool_valid_witness:
  "callTool sample sample_store good_call ''alice'' 0 = (Fulfilled (Num 5), 1)
   \<and> callTool sample sample_store whoami_call ''alice'' 0 = (Fulfilled (Str ''alice''), 1)"
proof -
  have reg: "Map_get (hs_functions sample_store) (call_name good_call) = Some add_two"
    by (simp add: sample_simps)
  have parsed: "JSON_parse sample (call_arguments good_call)
      = Inr (Obj [(''a'', Num 2), (''b'', Num 3)])"
    by (simp add: sample_simps)
  have valid: "safeParse sample (hf_schema add_two) (Obj [(''a'', Num 2), (''b'', Num 3)])
      = SafeParseSuccess (Obj [(''a'', Num 2), (''b'', Num 3)])"
    by (simp add: sample_simps)
  have run: "hf_handler add_two (Obj [(''a'', Num 2), (''b'', Num 3)]) ''alice'' 0
      = (Inr (Promise (\<lambda>w. (Fulfilled (Num 5), w))), 1)"
    by (simp add: sample_simps)
  have reg': "Map_get (hs_functions sample_store) (call_name whoami_call) = Some whoami"
    by (simp add: sample_simps)
  have parsed': "JSON_parse sample (call_arguments whoami_call) = Inr (Obj [])"
    by (simp add: sample_simps)
  have valid': "safeParse sample (hf_schema whoami) (Obj []) = SafeParseSuccess (Obj [])"
    by (simp add: sample_simps)
  have run': "hf_handler whoami (Obj []) ''alice'' 0 = (Inr (Value (Str ''alice'')), 1)"
    by (simp add: sample_simps)
  from callTool_valid [OF reg parsed valid, where ctx = "''alice''" and w = 0
      and p = "\<lambda>w. (Fulfilled (Num 5), w)" and w' = 1 and v = "Num 5" and w'' = 1] run
  have async: "callTool sample sample_store good_call ''alice'' 0 = (Fulfilled (Num 5), 1)"
    by simp
  from callTool_valid [OF reg' parsed' valid', where ctx = "''alice''" and w = 0
      and v = "Str ''alice''" and w' = 1] run'
  have sync: "callTool sample sample_store whoami_call ''alice'' 0 = (Fulfilled (Str ''alice''), 1)"
    by simp
  from async sync show ?thesis by simp
qed

text \<open>
  Invalid arguments. A request that names a registered function, whose arguments string
  parses and whose parsed arguments the schema does not validate, is rejected with an
  \<^verbatim>\<open>Error\<close> whose message is \<^verbatim>\<open>ind\<close> of a text that contains the requested name, and
  the state is the one the call started in, whatever the handler is: it has not run.
  What \<^verbatim>\<open>ind\<close> makes of the text is the library's doing: an \<^verbatim>\<open>ind\<close> that returned the
  empty string would meet every premise below. So C2, that the message itself contains
  the name, is left open; this lemma is as far as the source goes.
\<close>

lemma callTool_invalid_arguments:
  assumes "Map_get (hs_functions st) (call_name data) = Some hf"
    and "JSON_parse X (call_arguments data) = Inr parsed"
    and "safeParse X (hf_schema hf) parsed = SafeParseError err"
  shows "callTool X st data ctx w
           = (RejectedWith (Error (ind X (bad_arguments_text (call_name data)))), w)
       \<and> sublist (call_name data) (bad_arguments_text (call_name data))"
proof -
  have "bad_arguments_text (call_name data)
      = ([CHR 0x0A] @ ''        There was an issue with parsing the function arguments,'' @
         [CHR 0x0A] @ ''        please rewrite it by calling the '') @ call_name data @
        '' function with the correct parameters.''"
    by (simp add: bad_arguments_text_def)
  then have named: "sublist (call_name data) (bad_arguments_text (call_name data))"
    by (simp only: sublist_appendI)
  from assms have "callTool X st data ctx w
      = (RejectedWith (Error (ind X (bad_arguments_text (call_name data)))), w)"
    by (simp add: callTool_def)
  with named show ?thesis by blast
qed

lemma callTool_invalid_arguments_sample:
  "callTool sample sample_store bad_call ''alice'' 0
     = (RejectedWith (Error (ind sample (bad_arguments_text ''add_two''))), 0)"
proof -
  have reg: "Map_get (hs_functions sample_store) (call_name bad_call) = Some add_two"
    by (simp add: sample_simps)
  have parsed: "JSON_parse sample (call_arguments bad_call)
      = Inr (Obj [(''a'', Str ''x''), (''b'', Num 3)])"
    by (simp add: sample_simps)
  have invalid: "safeParse sample (hf_schema add_two) (Obj [(''a'', Str ''x''), (''b'', Num 3)])
      = SafeParseError (Str ''ZodError'')"
    by (simp add: sample_simps)
  have name: "call_name bad_call = ''add_two''"
    by (simp add: bad_call_def)
  from callTool_invalid_arguments [OF reg parsed invalid, of "''alice''" 0]
  show ?thesis by (simp only: name)
qed

text \<open>
  C3. A request whose function name is not a key of the registry fails with the assertion
  failure: \<^verbatim>\<open>callTool\<close> is rejected with the \<^verbatim>\<open>AssertionError\<close>, which is not the
  \<^verbatim>\<open>Error\<close> of invalid arguments, and the state is the one the call started in, whatever
  the handlers of the registry are: none has run.
\<close>

theorem callTool_unregistered:
  assumes "Map_get (hs_functions st) (call_name data) = None"
  shows "callTool X st data ctx w = (RejectedWith AssertionError, w)
         \<and> (\<forall>msg. fst (callTool X st data ctx w) \<noteq> RejectedWith (Error msg))"
  using assms by (simp add: callTool_def)

theorem callTool_unregistered_witness:
  "Map_get (hs_functions sample_store) (call_name unknown_call) = None
   \<and> callTool sample sample_store unknown_call ''alice'' 0 = (RejectedWith AssertionError, 0)"
proof -
  have none: "Map_get (hs_functions sample_store) (call_name unknown_call) = None"
    by (simp add: sample_store_functions Map_get_def unknown_call_def)
  from callTool_unregistered [OF none, of sample "''alice''" 0] none show ?thesis by simp
qed

text \<open>
  C7. \<^verbatim>\<open>callTool\<close> has no \<^verbatim>\<open>try\<close>: for a registered name, what \<^verbatim>\<open>JSON.parse\<close> throws on
  the arguments string is what \<^verbatim>\<open>callTool\<close> is rejected with, in the state the call
  started in; what the handler throws, or what the promise it returns is rejected with,
  is what \<^verbatim>\<open>callTool\<close> is rejected with, in the state the handler left.
\<close>

theorem callTool_propagates_errors:
  assumes "Map_get (hs_functions st) (call_name data) = Some hf"
  shows "(JSON_parse X (call_arguments data) = Inl e
            \<longrightarrow> callTool X st data ctx w = (RejectedWith e, w))
       \<and> (JSON_parse X (call_arguments data) = Inr parsed
            \<and> safeParse X (hf_schema hf) parsed = SafeParseSuccess args
            \<and> hf_handler hf args ctx w = (Inl e, w')
            \<longrightarrow> callTool X st data ctx w = (RejectedWith e, w'))
       \<and> (JSON_parse X (call_arguments data) = Inr parsed
            \<and> safeParse X (hf_schema hf) parsed = SafeParseSuccess args
            \<and> hf_handler hf args ctx w = (Inr (Promise p), w') \<and> p w' = (RejectedWith e, w'')
            \<longrightarrow> callTool X st data ctx w = (RejectedWith e, w''))"
  using assms by (simp add: callTool_def await_def)

theorem callTool_propagates_errors_witness:
  "callTool sample sample_store malformed_call ''alice'' 0
     = (RejectedWith (Thrown (Str ''SyntaxError'')), 0)
   \<and> callTool sample sample_store fail_now_call ''alice'' 0
     = (RejectedWith (Thrown (Str ''boom'')), 1)
   \<and> callTool sample sample_store fail_later_call ''alice'' 0
     = (RejectedWith (Thrown (Str ''late'')), 1)"
proof -
  have reg: "Map_get (hs_functions sample_store) (call_name malformed_call) = Some add_two"
    by (simp add: sample_simps)
  have syntax_error: "JSON_parse sample (call_arguments malformed_call)
      = Inl (Thrown (Str ''SyntaxError''))"
    by (simp add: sample_simps)
  from callTool_propagates_errors [OF reg, where X = sample and e = "Thrown (Str ''SyntaxError'')"
      and ctx = "''alice''" and w = 0] syntax_error
  have malformed: "callTool sample sample_store malformed_call ''alice'' 0
      = (RejectedWith (Thrown (Str ''SyntaxError'')), 0)"
    by simp
  have reg_now: "Map_get (hs_functions sample_store) (call_name fail_now_call) = Some fail_now"
    by (simp add: sample_simps)
  have now: "JSON_parse sample (call_arguments fail_now_call) = Inr (Obj [])
      \<and> safeParse sample (hf_schema fail_now) (Obj []) = SafeParseSuccess (Obj [])
      \<and> hf_handler fail_now (Obj []) ''alice'' 0 = (Inl (Thrown (Str ''boom'')), 1)"
    by (simp add: sample_simps)
  from callTool_propagates_errors [OF reg_now, where X = sample and parsed = "Obj []"
      and args = "Obj []" and e = "Thrown (Str ''boom'')" and ctx = "''alice''" and w = 0
      and w' = 1] now
  have thrown: "callTool sample sample_store fail_now_call ''alice'' 0
      = (RejectedWith (Thrown (Str ''boom'')), 1)"
    by simp
  have reg_later: "Map_get (hs_functions sample_store) (call_name fail_later_call) = Some fail_later"
    by (simp add: sample_simps)
  have later: "JSON_parse sample (call_arguments fail_later_call) = Inr (Obj [])
      \<and> safeParse sample (hf_schema fail_later) (Obj []) = SafeParseSuccess (Obj [])
      \<and> hf_handler fail_later (Obj []) ''alice'' 0
          = (Inr (Promise (\<lambda>w. (RejectedWith (Thrown (Str ''late'')), w))), 1)"
    by (simp add: sample_simps)
  from callTool_propagates_errors [OF reg_later, where X = sample and parsed = "Obj []"
      and args = "Obj []" and e = "Thrown (Str ''late'')" and ctx = "''alice''" and w = 0
      and p = "\<lambda>w. (RejectedWith (Thrown (Str ''late'')), w)" and w' = 1 and w'' = 1] later
  have rejected: "callTool sample sample_store fail_later_call ''alice'' 0
      = (RejectedWith (Thrown (Str ''late'')), 1)"
    by simp
  from malformed thrown rejected show ?thesis by simp
qed

text \<open>
  C8. The dispatcher passes the caller's context to the handler as it is and does nothing
  else with it. First, dispatching with context \<open>c\<close> to handlers that read their context
  through a function \<open>f\<close> is dispatching with context \<open>f c\<close>: nothing the dispatcher
  does depends on what the context holds. Second, when the handler is reached, the outcome
  is that of the handler applied to the validated arguments and to \<open>ctx\<close> itself. Third,
  when the handler is not reached, the outcome is the same for every context.
\<close>

theorem callTool_context_passed_through:
  "callTool X (store_through_context f st) data c w = callTool X st data (f c) w
   \<and> (Map_get (hs_functions st) (call_name data) = Some hf
        \<and> JSON_parse X (call_arguments data) = Inr parsed
        \<and> safeParse X (hf_schema hf) parsed = SafeParseSuccess args
        \<longrightarrow> callTool X st data ctx w
              = (case hf_handler hf args ctx w of
                   (Inl e, w') \<Rightarrow> (RejectedWith e, w')
                 | (Inr (Value v), w') \<Rightarrow> (Fulfilled v, w')
                 | (Inr (Promise p), w') \<Rightarrow> p w'))
   \<and> ((\<forall>hf parsed args. \<not> (Map_get (hs_functions st) (call_name data) = Some hf
            \<and> JSON_parse X (call_arguments data) = Inr parsed
            \<and> safeParse X (hf_schema hf) parsed = SafeParseSuccess args))
        \<longrightarrow> callTool X st data ctx w = callTool X st data ctx' w)"
proof (intro conjI impI)
  show "callTool X (store_through_context f st) data c w = callTool X st data (f c) w"
  proof (cases "Map_get (hs_functions st) (call_name data)")
    case None
    then show ?thesis
      by (simp add: callTool_def store_through_context_def Map_get_through_context)
  next
    case (Some hf)
    then show ?thesis
      by (simp add: callTool_def store_through_context_def Map_get_through_context
          through_context_sel split: sum.splits SafeParseReturn.splits)
  qed
next
  assume "Map_get (hs_functions st) (call_name data) = Some hf
        \<and> JSON_parse X (call_arguments data) = Inr parsed
        \<and> safeParse X (hf_schema hf) parsed = SafeParseSuccess args"
  then show "callTool X st data ctx w
      = (case hf_handler hf args ctx w of
           (Inl e, w') \<Rightarrow> (RejectedWith e, w')
         | (Inr (Value v), w') \<Rightarrow> (Fulfilled v, w')
         | (Inr (Promise p), w') \<Rightarrow> p w')"
    by (simp add: callTool_def await_def split: prod.splits sum.splits response.splits)
next
  assume "\<forall>hf parsed args. \<not> (Map_get (hs_functions st) (call_name data) = Some hf
            \<and> JSON_parse X (call_arguments data) = Inr parsed
            \<and> safeParse X (hf_schema hf) parsed = SafeParseSuccess args)"
  then show "callTool X st data ctx w = callTool X st data ctx' w"
    by (auto simp: callTool_def split: option.splits sum.splits SafeParseReturn.splits)
qed

theorem callTool_context_passed_through_witness:
  "callTool sample (store_through_context (\<lambda>b. if b then ''alice'' else ''bob'') sample_store)
       whoami_call True 0
     = (Fulfilled (Str ''alice''), 1)
   \<and> callTool sample sample_store whoami_call ''bob'' 0 = (Fulfilled (Str ''bob''), 1)
   \<and> callTool sample sample_store bad_call ''alice'' 0
     = callTool sample sample_store bad_call ''bob'' 0"
proof -
  have reached: "Map_get (hs_functions sample_store) (call_name whoami_call) = Some whoami
      \<and> JSON_parse sample (call_arguments whoami_call) = Inr (Obj [])
      \<and> safeParse sample (hf_schema whoami) (Obj []) = SafeParseSuccess (Obj [])"
    by (simp add: sample_simps)
  have not_reached: "\<forall>hf parsed args.
      \<not> (Map_get (hs_functions sample_store) (call_name bad_call) = Some hf
         \<and> JSON_parse sample (call_arguments bad_call) = Inr parsed
         \<and> safeParse sample (hf_schema hf) parsed = SafeParseSuccess args)"
    by (auto simp: sample_simps)
  have run: "hf_handler whoami (Obj []) ''alice'' 0 = (Inr (Value (Str ''alice'')), 1)"
    "hf_handler whoami (Obj []) ''bob'' 0 = (Inr (Value (Str ''bob'')), 1)"
    by (simp_all add: sample_simps)
  note at_alice = callTool_context_passed_through [where X = sample and st = sample_store
      and data = whoami_call and f = "\<lambda>b. if b then ''alice'' else ''bob''" and c = True
      and w = 0]
  note at_bob = callTool_context_passed_through [where X = sample and st = sample_store
      and data = whoami_call and f = "\<lambda>c::string. c" and c = "''bob''" and ctx = "''bob''"
      and w = 0 and hf = whoami and parsed = "Obj []" and args = "Obj []"]
  note at_bad = callTool_context_passed_through [where X = sample and st = sample_store
      and data = bad_call and f = "\<lambda>c::string. c" and c = "''alice''" and ctx = "''alice''"
      and ctx' = "''bob''" and w = 0]
  have through: "callTool sample
      (store_through_context (\<lambda>b. if b then ''alice'' else ''bob'') sample_store) whoami_call True 0
      = callTool sample sample_store whoami_call ''alice'' 0"
    using at_alice by simp
  have alice: "callTool sample sample_store whoami_call ''alice'' 0 = (Fulfilled (Str ''alice''), 1)"
    using callTool_context_passed_through [where X = sample and st = sample_store
      and data = whoami_call and f = "\<lambda>c::string. c" and c = "''alice''" and ctx = "''alice''"
      and w = 0 and hf = whoami and parsed = "Obj []" and args = "Obj []"] reached run
    by simp
  have bob: "callTool sample sample_store whoami_call ''bob'' 0 = (Fulfilled (Str ''bob''), 1)"
    using at_bob reached run by simp
  have same: "callTool sample sample_store bad_call ''alice'' 0
      = callTool sample sample_store bad_call ''bob'' 0"
    using at_bad not_reached by blast
  from through alice bob same show ?thesis by simp
qed

subsection \<open>The schema translator\<close>

text \<open>
  C4. When the JSON Schema that \<^verbatim>\<open>zodToJsonSchema\<close> makes of a definition's argument schema
  has the three keys \<^verbatim>\<open>type\<close>, \<^verbatim>\<open>properties\<close> and \<^verbatim>\<open>required\<close>, the descriptor's
  \<^verbatim>\<open>parameters\<close> has exactly these three keys, each with the value it has in the converted
  schema; when one of the three is absent, \<^verbatim>\<open>parameters\<close> is the empty object.
\<close>

theorem hyperFunctionToTool_parameters:
  "({''type'', ''properties'', ''required''} \<subseteq> dom (zodToJsonSchema X (hf_schema data))
      \<longrightarrow> dom (fd_parameters (tool_function (hyperFunctionToTool X name data)))
            = {''type'', ''properties'', ''required''}
          \<and> fd_parameters (tool_function (hyperFunctionToTool X name data))
            = zodToJsonSchema X (hf_schema data) |` {''type'', ''properties'', ''required''})
   \<and> (\<not> {''type'', ''properties'', ''required''} \<subseteq> dom (zodToJsonSchema X (hf_schema data))
      \<longrightarrow> fd_parameters (tool_function (hyperFunctionToTool X name data)) = Map.empty)"
proof (intro conjI impI)
  assume present: "{''type'', ''properties'', ''required''} \<subseteq> dom (zodToJsonSchema X (hf_schema data))"
  then have eq: "fd_parameters (tool_function (hyperFunctionToTool X name data))
      = zodToJsonSchema X (hf_schema data) |` {''type'', ''properties'', ''required''}"
    by (auto simp: hyperFunctionToTool_def Let_def fun_eq_iff restrict_map_def)
  then show "fd_parameters (tool_function (hyperFunctionToTool X name data))
      = zodToJsonSchema X (hf_schema data) |` {''type'', ''properties'', ''required''}" .
  from present eq
  show "dom (fd_parameters (tool_function (hyperFunctionToTool X name data)))
      = {''type'', ''properties'', ''required''}"
    by (simp only: dom_restrict) blast
next
  assume "\<not> {''type'', ''properties'', ''required''} \<subseteq> dom (zodToJsonSchema X (hf_schema data))"
  then show "fd_parameters (tool_function (hyperFunctionToTool X name data)) = Map.empty"
    by (auto simp: hyperFunctionToTool_def Let_def)
qed

theorem hyperFunctionToTool_parameters_witness:
  "fd_parameters (tool_function (hyperFunctionToTool sample ''add_two'' add_two))
     = [''type'' \<mapsto> Str ''object'',
        ''properties'' \<mapsto> Obj [(''a'', Obj [(''type'', Str ''number'')]),
                                 (''b'', Obj [(''type'', Str ''number'')])],
        ''required'' \<mapsto> Arr [Str ''a'', Str ''b'']]
   \<and> fd_parameters (tool_function (hyperFunctionToTool sample ''whoami'' whoami)) = Map.empty"
proof -
  have present: "{''type'', ''properties'', ''required''}
      \<subseteq> dom (zodToJsonSchema sample (hf_schema add_two))"
    by (simp add: sample_simps)
  have absent: "\<not> {''type'', ''properties'', ''required''}
      \<subseteq> dom (zodToJsonSchema sample (hf_schema whoami))"
    by (simp add: sample_simps)
  have restricted: "zodToJsonSchema sample (hf_schema add_two) |` {''type'', ''properties'', ''required''}
      = [''type'' \<mapsto> Str ''object'',
         ''properties'' \<mapsto> Obj [(''a'', Obj [(''type'', Str ''number'')]),
                                  (''b'', Obj [(''type'', Str ''number'')])],
         ''required'' \<mapsto> Arr [Str ''a'', Str ''b'']]"
    by (auto simp: sample_simps fun_eq_iff restrict_map_def)
  from hyperFunctionToTool_parameters [where X = sample and data = add_two and name = "''add_two''"]
    present restricted
  have full: "fd_parameters (tool_function (hyperFunctionToTool sample ''add_two'' add_two))
     = [''type'' \<mapsto> Str ''object'',
        ''properties'' \<mapsto> Obj [(''a'', Obj [(''type'', Str ''number'')]),
                                 (''b'', Obj [(''type'', Str ''number'')])],
        ''required'' \<mapsto> Arr [Str ''a'', Str ''b'']]"
    by simp
  from hyperFunctionToTool_parameters [where X = sample and data = whoami and name = "''whoami''"]
    absent
  have none: "fd_parameters (tool_function (hyperFunctionToTool sample ''whoami'' whoami)) = Map.empty"
    by blast
  from full none show ?thesis by simp
qed

text \<open>
  C9. Take a converter that leaves \<^verbatim>\<open>required\<close> out of the JSON Schema of an object schema
  none of whose arguments is required. Then for a definition built by \<^verbatim>\<open>hyper\<close> from
  arguments that are all optional (or from no argument), \<^verbatim>\<open>hyperFunctionToTool\<close> returns
  the empty object as \<^verbatim>\<open>parameters\<close>: the \<^verbatim>\<open>type\<close> and the \<^verbatim>\<open>properties\<close> of the converted
  schema are not exported, whatever they hold.
\<close>

theorem hyper_without_required_argument:
  assumes "omits_empty_required X"
    and "list_all (\<lambda>(k, node). isOptional X node) args"
  shows "fd_parameters (tool_function (hyperFunctionToTool X name (hyper X description args handler)))
           = Map.empty"
proof -
  from assms have "zodToJsonSchema X (z_object X args) ''required'' = None"
    by (simp add: omits_empty_required_def)
  then show ?thesis
    by (simp add: hyperFunctionToTool_def hyper_def Let_def)
qed

theorem hyper_without_required_argument_witness:
  "omits_empty_required sample
   \<and> list_all (\<lambda>(k, node). isOptional sample node) [(''hint'', ZOptional ZString)]
   \<and> zodToJsonSchema sample (hf_schema whoami) ''properties''
       = Some (Obj [(''hint'', Obj [(''type'', Str ''string'')])])
   \<and> fd_parameters (tool_function (hyperFunctionToTool sample ''whoami'' whoami)) = Map.empty"
proof -
  have law: "omits_empty_required sample"
    by (simp add: omits_empty_required_def sample_def sample_zodToJsonSchema_def
        all_optional_no_required)
  have optional: "list_all (\<lambda>(k, node). isOptional sample node) [(''hint'', ZOptional ZString)]"
    by (simp add: sample_def)
  have props: "zodToJsonSchema sample (hf_schema whoami) ''properties''
      = Some (Obj [(''hint'', Obj [(''type'', Str ''string'')])])"
    by (simp add: sample_simps)
  from hyper_without_required_argument [OF law optional, of "''whoami''" "''Name the caller''"
      whoami_handler]
  have "fd_parameters (tool_function (hyperFunctionToTool sample ''whoami'' whoami)) = Map.empty"
    by (simp add: whoami_def)
  with law optional props show ?thesis by simp
qed

subsection \<open>The registry\<close>

text \<open>
  C5. In every state of a registry, \<^verbatim>\<open>asTools()\<close> returns as many descriptors as the
  registry has entries; for every registered name there is exactly one descriptor of that
  name, which is \<^verbatim>\<open>{type: "function", function: {name, description, parameters}}\<close> with
  the description of the definition registered under the name and the parameters the
  schema translator gives for it; and every descriptor returned is such a descriptor of a
  registered name.
\<close>

theorem asTools_one_descriptor_per_entry:
  assumes "reachable st"
  shows "length (asTools X st) = length (hs_functions st)
       \<and> (\<forall>name hf. Map_get (hs_functions st) name = Some hf \<longrightarrow>
            filter (\<lambda>t. fd_name (tool_function t) = name) (asTools X st)
              = [\<lparr>tool_function =
                    \<lparr>fd_name = name, fd_description = hf_description hf,
                     fd_parameters = fd_parameters (tool_function (hyperFunctionToTool X name hf))\<rparr>,
                  tool_type = ''function''\<rparr>])
       \<and> (\<forall>t \<in> set (asTools X st). \<exists>name hf. Map_get (hs_functions st) name = Some hf
            \<and> t = \<lparr>tool_function =
                      \<lparr>fd_name = name, fd_description = hf_description hf,
                       fd_parameters = fd_parameters (tool_function (hyperFunctionToTool X name hf))\<rparr>,
                    tool_type = ''function''\<rparr>)"
proof -
  from assms have keys: "distinct (map fst (hs_functions st))"
    by (rule reachable_distinct)
  have shape: "hyperFunctionToTool X name hf
      = \<lparr>tool_function =
           \<lparr>fd_name = name, fd_description = hf_description hf,
            fd_parameters = fd_parameters (tool_function (hyperFunctionToTool X name hf))\<rparr>,
         tool_type = ''function''\<rparr>" for name hf
    by (simp add: hyperFunctionToTool_def Let_def)
  have count: "length (asTools X st) = length (hs_functions st)"
    by (simp add: asTools_def)
  have one: "filter (\<lambda>t. fd_name (tool_function t) = name) (asTools X st)
      = [hyperFunctionToTool X name hf]"
    if "Map_get (hs_functions st) name = Some hf" for name hf
    using that keys by (simp add: asTools_def filter_tools_by_name filter_key_distinct Map_get_def)
  have only: "\<exists>name hf. Map_get (hs_functions st) name = Some hf \<and> t = hyperFunctionToTool X name hf"
    if "t \<in> set (asTools X st)" for t
    using that keys by (auto simp: asTools_def Map_get_def)
  show ?thesis
  proof (intro conjI allI impI ballI)
    show "length (asTools X st) = length (hs_functions st)" by (rule count)
  next
    fix name hf
    assume "Map_get (hs_functions st) name = Some hf"
    then have "filter (\<lambda>t. fd_name (tool_function t) = name) (asTools X st)
        = [hyperFunctionToTool X name hf]"
      by (rule one)
    with shape [of name hf]
    show "filter (\<lambda>t. fd_name (tool_function t) = name) (asTools X st)
        = [\<lparr>tool_function =
              \<lparr>fd_name = name, fd_description = hf_description hf,
               fd_parameters = fd_parameters (tool_function (hyperFunctionToTool X name hf))\<rparr>,
            tool_type = ''function''\<rparr>]"
      by simp
  next
    fix t
    assume "t \<in> set (asTools X st)"
    then obtain name hf where "Map_get (hs_functions st) name = Some hf"
      and "t = hyperFunctionToTool X name hf"
      using only by blast
    with shape [of name hf]
    show "\<exists>name hf. Map_get (hs_functions st) name = Some hf
        \<and> t = \<lparr>tool_function =
                  \<lparr>fd_name = name, fd_description = hf_description hf,
                   fd_parameters = fd_parameters (tool_function (hyperFunctionToTool X name hf))\<rparr>,
                tool_type = ''function''\<rparr>"
      by metis
  qed
qed

theorem asTools_one_descriptor_per_entry_witness:
  "reachable sample_store
   \<and> length (asTools sample sample_store) = 4
   \<and> filter (\<lambda>t. fd_name (tool_function t) = ''add_two'') (asTools sample sample_store)
       = [add_two_tool]
   \<and> asTools sample sample_store ! 1 \<in> set (asTools sample sample_store)
   \<and> tool_type (asTools sample sample_store ! 1) = ''function''"
proof -
  note facts = asTools_one_descriptor_per_entry [OF sample_store_reachable, of sample]
  have reg: "Map_get (hs_functions sample_store) ''add_two'' = Some add_two"
    by (simp add: sample_simps)
  have description: "hf_description add_two = ''Add two numbers''"
    by (simp add: add_two_def hyper_def)
  from facts have "length (asTools sample sample_store) = length (hs_functions sample_store)"
    by blast
  then have count: "length (asTools sample sample_store) = 4"
    by (simp add: sample_store_functions)
  from facts reg
  have "filter (\<lambda>t. fd_name (tool_function t) = ''add_two'') (asTools sample sample_store)
      = [\<lparr>tool_function =
            \<lparr>fd_name = ''add_two'', fd_description = hf_description add_two,
             fd_parameters = fd_parameters (tool_function (hyperFunctionToTool sample ''add_two'' add_two))\<rparr>,
          tool_type = ''function''\<rparr>]"
    by blast
  then have one: "filter (\<lambda>t. fd_name (tool_function t) = ''add_two'') (asTools sample sample_store)
      = [add_two_tool]"
    by (simp add: description add_two_parameters add_two_tool_def)
  from count have member: "asTools sample sample_store ! 1 \<in> set (asTools sample sample_store)"
    by simp
  note facts [THEN conjunct2, THEN conjunct2, rule_format, OF member]
  then have "tool_type (asTools sample sample_store ! 1) = ''function''"
    by (elim exE conjE) simp
  with count one member sample_store_reachable show ?thesis by simp
qed

text \<open>
  C6. \<^verbatim>\<open>set(name, d1)\<close> followed by \<^verbatim>\<open>set(name, d2)\<close> leaves the registry that
  \<^verbatim>\<open>set(name, d2)\<close> alone leaves: the name is mapped to \<open>d2\<close>, and in every state of a
  registry the name has one entry afterwards, the one of \<open>d2\<close>, and one descriptor in
  \<^verbatim>\<open>asTools()\<close>, the one the schema translator makes of \<open>d2\<close>.
\<close>

theorem set_twice_last_wins:
  "store_set name d2 (store_set name d1 st) = store_set name d2 st
   \<and> Map_get (hs_functions (store_set name d2 (store_set name d1 st))) name = Some d2
   \<and> (reachable st \<longrightarrow>
        filter (\<lambda>(k, hf). k = name) (hs_functions (store_set name d2 (store_set name d1 st)))
          = [(name, d2)]
        \<and> filter (\<lambda>t. fd_name (tool_function t) = name)
            (asTools X (store_set name d2 (store_set name d1 st)))
          = [hyperFunctionToTool X name d2])"
proof -
  let ?st = "store_set name d2 (store_set name d1 st)"
  have same: "?st = store_set name d2 st"
    by (simp add: store_set_def Map_set_twice)
  have found: "Map_get (hs_functions ?st) name = Some d2"
    by (simp add: store_set_def Map_get_def map_of_Map_set)
  have single: "filter (\<lambda>(k, hf). k = name) (hs_functions ?st) = [(name, d2)]"
    if "reachable st"
  proof -
    from that have "reachable ?st"
      by (intro reachable.after_set)
    then have "distinct (map fst (hs_functions ?st))"
      by (rule reachable_distinct)
    with found show ?thesis
      by (simp add: filter_key_distinct Map_get_def)
  qed
  have tool: "filter (\<lambda>t. fd_name (tool_function t) = name) (asTools X ?st)
      = [hyperFunctionToTool X name d2]"
    if "reachable st"
    using single [OF that] by (simp add: asTools_def filter_tools_by_name)
  from same found single tool show ?thesis by blast
qed

theorem set_twice_last_wins_witness:
  "reachable sample_store
   \<and> hs_functions (store_set ''whoami'' add_two (store_set ''whoami'' fail_now sample_store))
       = [(''add_two'', add_two), (''whoami'', add_two), (''fail_now'', fail_now),
          (''fail_later'', fail_later)]
   \<and> filter (\<lambda>t. fd_name (tool_function t) = ''whoami'')
        (asTools sample (store_set ''whoami'' add_two (store_set ''whoami'' fail_now sample_store)))
       = [hyperFunctionToTool sample ''whoami'' add_two]"
proof -
  note facts = set_twice_last_wins [where name = "''whoami''" and ?d1.0 = fail_now
      and ?d2.0 = add_two and st = sample_store and X = sample]
  from facts
  have "store_set ''whoami'' add_two (store_set ''whoami'' fail_now sample_store)
      = store_set ''whoami'' add_two sample_store"
    by blast
  then have entries: "hs_functions (store_set ''whoami'' add_two (store_set ''whoami'' fail_now sample_store))
      = [(''add_two'', add_two), (''whoami'', add_two), (''fail_now'', fail_now),
         (''fail_later'', fail_later)]"
    by (simp add: store_set_def sample_store_functions)
  from facts sample_store_reachable
  have "filter (\<lambda>t. fd_name (tool_function t) = ''whoami'')
        (asTools sample (store_set ''whoami'' add_two (store_set ''whoami'' fail_now sample_store)))
       = [hyperFunctionToTool sample ''whoami'' add_two]"
    by blast
  with entries sample_store_reachable show ?thesis by simp
qed

text \<open>
  C10. \<^verbatim>\<open>asTools()\<close> lists the descriptors in the order of insertion. For a registry made
  from an initial object, the names of the descriptors are the keys of the object in the
  object's key order. After \<^verbatim>\<open>set(name, hf)\<close> the names are the names before it when the
  name was present (it keeps its place), and the names before it followed by the new name
  when it was not.
\<close>

theorem asTools_insertion_order:
  "(distinct (map fst fs) \<longrightarrow> tool_names (asTools X (hyperStore fs)) = map fst fs)
   \<and> tool_names (asTools X (store_set name hf st))
       = (if name \<in> set (tool_names (asTools X st)) then tool_names (asTools X st)
          else tool_names (asTools X st) @ [name])"
  by (simp add: asTools_names hyperStore_def store_set_def new_Map_distinct keys_Map_set)

theorem asTools_insertion_order_witness:
  "tool_names (asTools sample sample_store) = [''add_two'', ''whoami'', ''fail_now'', ''fail_later'']
   \<and> tool_names (asTools sample (store_set ''whoami'' add_two sample_store))
       = [''add_two'', ''whoami'', ''fail_now'', ''fail_later'']
   \<and> tool_names (asTools sample (store_set ''zeta'' add_two sample_store))
       = [''add_two'', ''whoami'', ''fail_now'', ''fail_later'', ''zeta'']"
proof -
  have keys: "distinct (map fst [(''add_two'', add_two), (''whoami'', whoami),
      (''fail_now'', fail_now), (''fail_later'', fail_later)])"
    by simp
  from asTools_insertion_order [where X = sample and name = "''whoami''" and hf = add_two
      and st = sample_store
      and fs = "[(''add_two'', add_two), (''whoami'', whoami), (''fail_now'', fail_now),
        (''fail_later'', fail_later)]"] keys
  have initial: "tool_names (asTools sample sample_store)
      = [''add_two'', ''whoami'', ''fail_now'', ''fail_later'']"
    and kept: "tool_names (asTools sample (store_set ''whoami'' add_two sample_store))
      = (if ''whoami'' \<in> set (tool_names (asTools sample sample_store))
         then tool_names (asTools sample sample_store)
         else tool_names (asTools sample sample_store) @ [''whoami''])"
    by (simp_all add: sample_store_def)
  from asTools_insertion_order [where X = sample and name = "''zeta''" and hf = add_two
      and st = sample_store and fs = "[]", THEN conjunct2]
  have added: "tool_names (asTools sample (store_set ''zeta'' add_two sample_store))
      = (if ''zeta'' \<in> set (tool_names (asTools sample sample_store))
         then tool_names (asTools sample sample_store)
         else tool_names (asTools sample sample_store) @ [''zeta''])"
    by simp
  from initial kept added show ?thesis by simp
qed

end
